theory Spec2Isabelle
  imports Complex_Main "HOL-Library.Multiset" "HOL-Library.Word"
begin

section \<open>JavaScript values used by the pages\<close>

subsection \<open>Strings\<close>

text \<open>
  A JavaScript string is a sequence of 16-bit code units. The strings of the library page,
  which the page lower-cases and searches, are lists of code units. The texts of the forms
  of the other pages, which are trimmed, compared and sent, are modelled as a
  \<^typ>\<open>string\<close>, whose characters cover the code units U+0000 to U+00FF; \<open>utf16\<close> gives the
  code units of such a text.
\<close>

type_synonym ustring = "16 word list"

definition utf16 :: "string \<Rightarrow> ustring" where
  "utf16 s = map (\<lambda>c. of_nat (of_char c)) s"

text \<open>\<^verbatim>\<open>String.prototype.includes\<close>: is the search string found at some position.\<close>

fun String_includes :: "'a list \<Rightarrow> 'a list \<Rightarrow> bool" where
  "String_includes [] s = (s = [])"
| "String_includes (c # cs) s = (take (length s) (c # cs) = s \<or> String_includes cs s)"

text \<open>\<^verbatim>\<open>String.prototype.trim\<close>: white space and line terminators are removed at both
  ends (TAB, LF, VT, FF, CR, SP and NBSP on this range).\<close>

definition isWhiteSpace :: "char \<Rightarrow> bool" where
  "isWhiteSpace c = ((of_char c :: nat) \<in> {9, 10, 11, 12, 13, 32, 160})"

definition trim :: "string \<Rightarrow> string" where
  "trim s = rev (dropWhile isWhiteSpace (rev (dropWhile isWhiteSpace s)))"

subsection \<open>Numbers\<close>

text \<open>
  A JavaScript number is NaN, an infinity, or a finite value. Only the order of numbers and
  the sign of a difference are observed by the pages, and the rounded difference of two
  finite doubles has the sign of the exact difference; so a finite number is modelled by
  the real it denotes and the difference by the exact one.
\<close>

datatype number = NaN | MInf | Fin real | PInf

fun minus_number :: "number \<Rightarrow> number \<Rightarrow> number" where
  "minus_number NaN _ = NaN"
| "minus_number _ NaN = NaN"
| "minus_number (Fin a) (Fin b) = Fin (a - b)"
| "minus_number (Fin a) PInf = MInf"
| "minus_number (Fin a) MInf = PInf"
| "minus_number PInf PInf = NaN"
| "minus_number PInf _ = PInf"
| "minus_number MInf MInf = NaN"
| "minus_number MInf _ = MInf"

text \<open>The comparison \<^verbatim>\<open>a >= b\<close> of two numbers: false as soon as one of them is NaN.\<close>

fun number_ge :: "number \<Rightarrow> number \<Rightarrow> bool" where
  "number_ge NaN _ = False"
| "number_ge _ NaN = False"
| "number_ge PInf _ = True"
| "number_ge _ MInf = True"
| "number_ge MInf _ = False"
| "number_ge _ PInf = False"
| "number_ge (Fin a) (Fin b) = (b \<le> a)"

fun is_positive :: "number \<Rightarrow> bool" where
  "is_positive PInf = True"
| "is_positive (Fin a) = (0 < a)"
| "is_positive _ = False"

subsection \<open>Array.prototype.sort\<close>

text \<open>
  The sort calls the comparison function through \<^verbatim>\<open>SortCompare\<close>, which reads a NaN result
  as \<open>+0\<close>, and is stable: an element moves in front of another one only when the comparison
  says it is smaller. For a consistent comparison function the result is fixed by that; it
  is computed here by a stable insertion sort.
\<close>

definition SortCompare :: "('a \<Rightarrow> 'a \<Rightarrow> number) \<Rightarrow> 'a \<Rightarrow> 'a \<Rightarrow> number" where
  "SortCompare comparefn x y = (let v = comparefn x y in if v = NaN then Fin 0 else v)"

fun sort_insert :: "('a \<Rightarrow> 'a \<Rightarrow> number) \<Rightarrow> 'a \<Rightarrow> 'a list \<Rightarrow> 'a list" where
  "sort_insert comparefn x [] = [x]"
| "sort_insert comparefn x (y # ys) =
     (if is_positive (SortCompare comparefn x y) then y # sort_insert comparefn x ys
      else x # y # ys)"

fun array_sort :: "('a \<Rightarrow> 'a \<Rightarrow> number) \<Rightarrow> 'a list \<Rightarrow> 'a list" where
  "array_sort comparefn [] = []"
| "array_sort comparefn (x # xs) = sort_insert comparefn x (array_sort comparefn xs)"

section \<open>The library page\<close>

record Document =
  document_id :: ustring
  filename :: ustring
  subject :: ustring
  upload_date :: ustring
  complexity_score :: number
  chunk_count :: int
  file_size_mb :: "number option"
  status :: "ustring option"

text \<open>
  \<^verbatim>\<open>filteredDocuments\<close>: the callback of \<^verbatim>\<open>documents.filter\<close> and the filtered list.
  \<^verbatim>\<open>String.prototype.toLowerCase\<close> belongs to the runtime: it follows the case mappings of
  Unicode, which depend on the neighbours of a letter and can change the length of a
  string. It is the parameter \<open>toLowerCase\<close>, and nothing is assumed of it.
\<close>

definition matchesSearch :: "(ustring \<Rightarrow> ustring) \<Rightarrow> ustring \<Rightarrow> Document \<Rightarrow> bool" where
  "matchesSearch toLowerCase searchTerm doc =
     (String_includes (toLowerCase (filename doc)) (toLowerCase searchTerm) \<or>
      String_includes (toLowerCase (subject doc)) (toLowerCase searchTerm))"

definition matchesFilter :: "ustring \<Rightarrow> Document \<Rightarrow> bool" where
  "matchesFilter filterBy doc = (filterBy = utf16 ''all'' \<or> subject doc = filterBy)"

definition filteredDocuments ::
  "(ustring \<Rightarrow> ustring) \<Rightarrow> Document list \<Rightarrow> ustring \<Rightarrow> ustring \<Rightarrow> Document list" where
  "filteredDocuments toLowerCase documents searchTerm filterBy =
     filter (\<lambda>doc. matchesSearch toLowerCase searchTerm doc \<and> matchesFilter filterBy doc) documents"

text \<open>
  \<^verbatim>\<open>sortedDocuments\<close>: the comparison function of the sort. \<^verbatim>\<open>new Date(s).getTime()\<close> and
  \<^verbatim>\<open>String.prototype.localeCompare\<close> belong to the runtime and its locale; they are
  parameters \<open>getTime\<close> (NaN for a string that is no date) and \<open>localeCompare\<close>.
\<close>

definition compareDocuments ::
  "(ustring \<Rightarrow> number) \<Rightarrow> (ustring \<Rightarrow> ustring \<Rightarrow> int) \<Rightarrow> ustring \<Rightarrow> Document \<Rightarrow> Document \<Rightarrow> number" where
  "compareDocuments getTime localeCompare sortBy a b =
     (if sortBy = utf16 ''upload_date''
      then minus_number (getTime (upload_date b)) (getTime (upload_date a))
      else if sortBy = utf16 ''filename''
      then Fin (of_int (localeCompare (filename a) (filename b)))
      else if sortBy = utf16 ''complexity''
      then minus_number (complexity_score b) (complexity_score a)
      else Fin 0)"

definition sortedDocuments ::
  "(ustring \<Rightarrow> number) \<Rightarrow> (ustring \<Rightarrow> ustring \<Rightarrow> int) \<Rightarrow> ustring \<Rightarrow> Document list \<Rightarrow> Document list" where
  "sortedDocuments getTime localeCompare sortBy filtered =
     array_sort (compareDocuments getTime localeCompare sortBy) filtered"

subsection \<open>Arrays in the store\<close>

text \<open>
  An array is an object: the page state holds a reference to it, and \<^verbatim>\<open>sort\<close> works in
  place. The store is the list of the arrays allocated so far, an address is an index into
  it. \<^verbatim>\<open>filter\<close> and the spread \<^verbatim>\<open>[...a]\<close> allocate a new array, \<^verbatim>\<open>sort\<close> overwrites the
  array it is called on and returns the same reference.
\<close>

definition Array_new :: "'a list \<Rightarrow> 'a list list \<Rightarrow> nat \<times> 'a list list" where
  "Array_new xs h = (length h, h @ [xs])"

definition Array_filter :: "('a \<Rightarrow> bool) \<Rightarrow> nat \<Rightarrow> 'a list list \<Rightarrow> nat \<times> 'a list list" where
  "Array_filter p a h = Array_new (filter p (h ! a)) h"

definition Array_spread :: "nat \<Rightarrow> 'a list list \<Rightarrow> nat \<times> 'a list list" where
  "Array_spread a h = Array_new (h ! a) h"

definition Array_sort ::
  "('a \<Rightarrow> 'a \<Rightarrow> number) \<Rightarrow> nat \<Rightarrow> 'a list list \<Rightarrow> nat \<times> 'a list list" where
  "Array_sort comparefn a h = (a, h[a := array_sort comparefn (h ! a)])"

section \<open>The gateway client\<close>

datatype json =
  JNull | JBool bool | JNumber number | JString string
  | JArray "json list" | JObject "(string \<times> json) list"

record File =
  file_name :: string
  file_type :: string

datatype form_value = FormString string | FormFile File

datatype body =
  NoBody | JsonBody "(string \<times> json) list" | FormBody "(string \<times> form_value) list"

datatype http_method = GET | POST

text \<open>A request as the axios instance sends it; the URL is relative to the base URL.\<close>

record request =
  req_method :: http_method
  req_url :: string
  req_body :: body
  req_params :: "(string \<times> string) list"
  req_content_type :: string

definition api_post :: "string \<Rightarrow> body \<Rightarrow> string \<Rightarrow> request" where
  "api_post url data content_type =
     \<lparr>req_method = POST, req_url = url, req_body = data, req_params = [],
      req_content_type = content_type\<rparr>"

definition api_get :: "string \<Rightarrow> (string \<times> string) list \<Rightarrow> request" where
  "api_get url params =
     \<lparr>req_method = GET, req_url = url, req_body = NoBody, req_params = params,
      req_content_type = ''application/json''\<rparr>"

text \<open>The functions of \<^verbatim>\<open>apiService\<close>. An argument with a default value is an option:
  \<open>None\<close> is the argument left out.\<close>

definition uploadPDF :: "File \<Rightarrow> string \<Rightarrow> string \<Rightarrow> request" where
  "uploadPDF file subj userId =
     api_post ''/upload_pdf''
       (FormBody [(''file'', FormFile file), (''subject'', FormString subj),
                  (''user_id'', FormString userId)])
       ''multipart/form-data''"

definition askQuestion :: "string \<Rightarrow> string option \<Rightarrow> string \<Rightarrow> request" where
  "askQuestion question documentId userId =
     api_post ''/ask''
       (JsonBody [(''question'', JString question),
                  (''document_id'', JString (case documentId of None \<Rightarrow> ''all'' | Some d \<Rightarrow> d)),
                  (''user_id'', JString userId)])
       ''application/json''"


definition getDashboard :: "string \<Rightarrow> request" where
  "getDashboard userId = api_get (''/visualizations/dashboard/'' @ userId) []"


definition getResearchSuggestions :: "string \<Rightarrow> request" where
  "getResearchSuggestions topic =
     api_post ''/agents/researcher'' (JsonBody [(''topic'', JString topic)]) ''application/json''"

definition submitFeedback :: "string \<Rightarrow> number \<Rightarrow> string option \<Rightarrow> request" where
  "submitFeedback interactionId rating comments =
     api_post ''/feedback''
       (JsonBody [(''interaction_id'', JString interactionId), (''rating'', JNumber rating),
                  (''comments'', JString (case comments of None \<Rightarrow> [] | Some c \<Rightarrow> c))])
       ''application/json''"

section \<open>What a handler does to the world\<close>

text \<open>
  The promise of a request settles once: it resolves with the data of the response, or it
  rejects (no answer, or a status outside 2xx). A handler is modelled as one run from its
  call to the settlement of its promise, the outcome being an argument; the requests it
  sends, the notices it shows and the lines it logs are appended to the fields below.
\<close>

datatype 'a response = Resolved 'a | Rejected

datatype toast = Toast_error string | Toast_success string

record effects =
  requests :: "request list"
  toasts :: "toast list"
  console :: "string list"

text \<open>\<^verbatim>\<open>Number.prototype.toString\<close> of an integer, as \<^verbatim>\<open>Date.now().toString()\<close> uses it.\<close>

function toString_nat :: "nat \<Rightarrow> string" where
  "toString_nat n =
     (if n < 10 then [char_of (48 + n)] else toString_nat (n div 10) @ [char_of (48 + n mod 10)])"
  by pat_completeness auto
termination
  by (relation "measure id") auto

declare toString_nat.simps [simp del]

definition toString :: "int \<Rightarrow> string" where
  "toString i = (if i < 0 then CHR ''-'' # toString_nat (nat (- i)) else toString_nat (nat i))"

section \<open>The library page: state and rendering\<close>

record LibraryPage = effects +
  lib_store :: "Document list list"
  lib_documents :: nat
  lib_loading :: bool
  lib_searchTerm :: ustring
  lib_sortBy :: ustring
  lib_filterBy :: ustring

definition doc_001 :: Document where
  "doc_001 =
     \<lparr>document_id = utf16 ''doc_001'', filename = utf16 ''Machine Learning Fundamentals.pdf'',
      subject = utf16 ''Machine Learning'', upload_date = utf16 ''2024-01-15T10:30:00Z'',
      complexity_score = Fin 0.75, chunk_count = 45, file_size_mb = Some (Fin 12.5),
      status = Some (utf16 ''active'')\<rparr>"

definition doc_002 :: Document where
  "doc_002 =
     \<lparr>document_id = utf16 ''doc_002'', filename = utf16 ''Introduction to Neural Networks.pdf'',
      subject = utf16 ''Deep Learning'', upload_date = utf16 ''2024-01-10T14:20:00Z'',
      complexity_score = Fin 0.85, chunk_count = 38, file_size_mb = Some (Fin 8.7),
      status = Some (utf16 ''active'')\<rparr>"

definition doc_003 :: Document where
  "doc_003 =
     \<lparr>document_id = utf16 ''doc_003'', filename = utf16 ''Data Science Methods.pdf'',
      subject = utf16 ''Data Science'', upload_date = utf16 ''2024-01-05T09:15:00Z'',
      complexity_score = Fin 0.65, chunk_count = 52, file_size_mb = Some (Fin 15.2),
      status = Some (utf16 ''active'')\<rparr>"

definition sampleDocs :: "Document list" where
  "sampleDocs = [doc_001, doc_002, doc_003]"

definition LibraryPage_init :: LibraryPage where
  "LibraryPage_init =
     \<lparr>requests = [], toasts = [], console = [], lib_store = [[]], lib_documents = 0,
      lib_loading = True, lib_searchTerm = [], lib_sortBy = utf16 ''upload_date'',
      lib_filterBy = utf16 ''all''\<rparr>"

definition fetchDocuments :: "LibraryPage \<Rightarrow> LibraryPage" where
  "fetchDocuments st =
     (let (a, h) = Array_new sampleDocs (lib_store st)
      in st\<lparr>lib_store := h, lib_documents := a, lib_loading := False\<rparr>)"

text \<open>The body of the component computes \<^verbatim>\<open>filteredDocuments\<close> and \<^verbatim>\<open>sortedDocuments\<close> from the
  state on every rendering; the result is the reference to the sorted array.\<close>

definition LibraryPage_render ::
  "(ustring \<Rightarrow> ustring) \<Rightarrow> (ustring \<Rightarrow> number) \<Rightarrow> (ustring \<Rightarrow> ustring \<Rightarrow> int) \<Rightarrow>
     LibraryPage \<Rightarrow> nat \<times> LibraryPage" where
  "LibraryPage_render toLowerCase getTime localeCompare st =
     (let (filtered, h1) =
            Array_filter
              (\<lambda>doc. matchesSearch toLowerCase (lib_searchTerm st) doc \<and>
                      matchesFilter (lib_filterBy st) doc)
              (lib_documents st) (lib_store st);
          (copy, h2) = Array_spread filtered h1;
          (sorted, h3) = Array_sort (compareDocuments getTime localeCompare (lib_sortBy st)) copy h2
      in (sorted, st\<lparr>lib_store := h3\<rparr>))"

section \<open>The upload page\<close>

record UploadPage = effects +
  upload_file :: "File option"
  upload_subject :: string
  uploading :: bool
  uploadResult :: "json option"

definition UploadPage_init :: UploadPage where
  "UploadPage_init =
     \<lparr>requests = [], toasts = [], console = [], upload_file = None, upload_subject = [],
      uploading = False, uploadResult = None\<rparr>"

definition handleFileChange :: "File option \<Rightarrow> UploadPage \<Rightarrow> UploadPage" where
  "handleFileChange selectedFile st =
     (case selectedFile of
        None \<Rightarrow> st
      | Some f \<Rightarrow>
          if file_type f = ''application/pdf'' then st\<lparr>upload_file := Some f\<rparr>
          else st\<lparr>toasts := toasts st @ [Toast_error ''Invalid file type. Please select a PDF file.'']\<rparr>)"

definition handleUpload :: "json response \<Rightarrow> UploadPage \<Rightarrow> UploadPage" where
  "handleUpload outcome st =
     (if upload_file st = None \<or> trim (upload_subject st) = []
      then st\<lparr>toasts := toasts st @ [Toast_error ''Please select a file and enter a subject.'']\<rparr>
      else
        let st1 = st\<lparr>uploading := True,
                     requests := requests st @
                       [uploadPDF (the (upload_file st)) (upload_subject st) ''cli_user'']\<rparr>;
            st2 = (case outcome of
                     Resolved data \<Rightarrow>
                       st1\<lparr>uploadResult := Some data,
                           toasts := toasts st1 @
                             [Toast_success ''Upload successful! Your document has been processed and is ready for questions.''],
                           upload_file := None, upload_subject := []\<rparr>
                   | Rejected \<Rightarrow>
                       st1\<lparr>toasts := toasts st1 @
                             [Toast_error ''Upload failed. There was an error uploading your document. Please try again.'']\<rparr>)
        in st2\<lparr>uploading := False\<rparr>)"

section \<open>The ask page\<close>

record Source =
  document :: string
  chunk_id :: string
  relevance_score :: number
  preview :: string

datatype message_type = User | Assistant

record Message =
  msg_id :: string
  msg_type :: message_type
  msg_content :: string
  msg_timestamp :: int
  msg_sources :: "Source list option"
  msg_tutor_explanation :: "string option"
  msg_interaction_id :: "string option"

text \<open>The fields of \<^verbatim>\<open>response.data\<close> that the page reads.\<close>

record ask_data =
  answer :: string
  sources :: "Source list option"
  tutor_explanation :: "string option"
  interaction_id :: "string option"

record AskPage = effects +
  ask_messages :: "Message list"
  ask_input :: string
  ask_loading :: bool
  ask_selectedDocument :: string

definition AskPage_init :: AskPage where
  "AskPage_init =
     \<lparr>requests = [], toasts = [], console = [], ask_messages = [], ask_input = [],
      ask_loading = False, ask_selectedDocument = ''all''\<rparr>"

text \<open>One run of \<^verbatim>\<open>handleSubmit\<close>: the four readings of the clock, in the order the handler
  takes them, and the outcome of the request.\<close>

record ask_run =
  user_id_now :: int
  user_timestamp :: int
  ask_outcome :: "ask_data response"
  assistant_id_now :: int
  assistant_timestamp :: int

definition handleSubmit :: "ask_run \<Rightarrow> AskPage \<Rightarrow> AskPage" where
  "handleSubmit run st =
     (if trim (ask_input st) = [] \<or> ask_loading st then st
      else
        let userMessage =
              \<lparr>msg_id = toString (user_id_now run), msg_type = User, msg_content = ask_input st,
               msg_timestamp = user_timestamp run, msg_sources = None,
               msg_tutor_explanation = None, msg_interaction_id = None\<rparr>;
            st1 = st\<lparr>ask_messages := ask_messages st @ [userMessage], ask_input := [],
                     ask_loading := True,
                     requests := requests st @
                       [askQuestion (ask_input st) (Some (ask_selectedDocument st)) ''cli_user'']\<rparr>;
            st2 = (case ask_outcome run of
                     Resolved data \<Rightarrow>
                       st1\<lparr>ask_messages := ask_messages st1 @
                             [\<lparr>msg_id = toString (assistant_id_now run + 1), msg_type = Assistant,
                               msg_content = answer data, msg_timestamp = assistant_timestamp run,
                               msg_sources = sources data,
                               msg_tutor_explanation = tutor_explanation data,
                               msg_interaction_id = interaction_id data\<rparr>]\<rparr>
                   | Rejected \<Rightarrow>
                       st1\<lparr>toasts := toasts st1 @
                             [Toast_error ''Failed to get answer. Please try again.'']\<rparr>)
        in st2\<lparr>ask_loading := False\<rparr>)"

definition handleFeedback :: "json response \<Rightarrow> string \<Rightarrow> number \<Rightarrow> AskPage \<Rightarrow> AskPage" where
  "handleFeedback outcome interactionId rating st =
     (let st1 = st\<lparr>requests := requests st @ [submitFeedback interactionId rating None]\<rparr>
      in case outcome of
           Resolved data \<Rightarrow> st1\<lparr>toasts := toasts st1 @ [Toast_success ''Thank you for your feedback!'']\<rparr>
         | Rejected \<Rightarrow> st1\<lparr>toasts := toasts st1 @ [Toast_error ''Failed to submit feedback.'']\<rparr>)"

section \<open>The tutor page\<close>







section \<open>The research page\<close>

record ResearchPage = effects +
  research_topic :: string
  research_suggestions :: string
  research_loading :: bool
  searchHistory :: "string list"

definition ResearchPage_init :: ResearchPage where
  "ResearchPage_init =
     \<lparr>requests = [], toasts = [], console = [], research_topic = [], research_suggestions = [],
      research_loading = False, searchHistory = []\<rparr>"

definition setTopic :: "string \<Rightarrow> ResearchPage \<Rightarrow> ResearchPage" where
  "setTopic t st = st\<lparr>research_topic := t\<rparr>"

definition handleSearch :: "string response \<Rightarrow> ResearchPage \<Rightarrow> ResearchPage" where
  "handleSearch outcome st =
     (if trim (research_topic st) = [] then st
      else
        let st1 = st\<lparr>research_loading := True,
                     requests := requests st @ [getResearchSuggestions (research_topic st)]\<rparr>;
            st2 = (case outcome of
                     Resolved suggestions \<Rightarrow>
                       let st3 = st1\<lparr>research_suggestions := suggestions\<rparr>;
                           st4 = (if research_topic st \<notin> set (searchHistory st)
                                  then st3\<lparr>searchHistory :=
                                             research_topic st # take 9 (searchHistory st3)\<rparr>
                                  else st3)
                       in st4\<lparr>toasts := toasts st4 @ [Toast_success ''Operation completed successfully.'']\<rparr>
                   | Rejected \<Rightarrow>
                       st1\<lparr>toasts := toasts st1 @ [Toast_error ''Something went wrong.'']\<rparr>)
        in st2\<lparr>research_loading := False\<rparr>)"

text \<open>What the user can do on the page: put a text into the topic field (by typing, or by
  clicking a trending topic, a research area or a history entry) and submit the search.\<close>

datatype research_event = SetTopic string | Search "string response"

fun research_step :: "ResearchPage \<Rightarrow> research_event \<Rightarrow> ResearchPage" where
  "research_step st (SetTopic t) = setTopic t st"
| "research_step st (Search outcome) = handleSearch outcome st"

definition research_run :: "research_event list \<Rightarrow> ResearchPage" where
  "research_run events = foldl research_step ResearchPage_init events"

section \<open>The analytics page and the dashboard\<close>

record AnalyticsPage = effects +
  analytics :: "json option"
  analytics_loading :: bool
  timeRange :: string



definition setTimeRange :: "string \<Rightarrow> AnalyticsPage \<Rightarrow> AnalyticsPage" where
  "setTimeRange r st = st\<lparr>timeRange := r\<rparr>"

record AnalyticsData =
  total_questions :: int
  unique_documents :: int
  avg_questions_per_day :: number
  avg_question_complexity :: number
  comprehension_score :: number
  main_topics :: "string list"
  learning_sessions :: int




section \<open>The controls of the pages\<close>










section \<open>The vocabulary of the specification\<close>

text \<open>A text is found in a string when a stretch of the string is the text.\<close>

definition occurs_in :: "'a list \<Rightarrow> 'a list \<Rightarrow> bool" where
  "occurs_in s a = (\<exists>before after. a = before @ s @ after)"

text \<open>What the specification calls containing a text case-insensitively: a stretch of the
  string is the text up to case, that is, the two have the same lower-case form.\<close>

definition contains_ignoring_case :: "(ustring \<Rightarrow> ustring) \<Rightarrow> ustring \<Rightarrow> ustring \<Rightarrow> bool" where
  "contains_ignoring_case toLowerCase a s =
     (\<exists>before mid after. a = before @ mid @ after \<and> toLowerCase mid = toLowerCase s)"

definition filter_predicate :: "(ustring \<Rightarrow> ustring) \<Rightarrow> ustring \<Rightarrow> ustring \<Rightarrow> Document \<Rightarrow> bool" where
  "filter_predicate toLowerCase s f doc =
     ((contains_ignoring_case toLowerCase (filename doc) s \<or>
       contains_ignoring_case toLowerCase (subject doc) s)
      \<and> (f = utf16 ''all'' \<or> subject doc = f))"

text \<open>What the page tests instead: the lower-case form of the text is found in the lower-case
  form of the string.\<close>

definition lowered_predicate :: "(ustring \<Rightarrow> ustring) \<Rightarrow> ustring \<Rightarrow> ustring \<Rightarrow> Document \<Rightarrow> bool" where
  "lowered_predicate toLowerCase s f doc =
     ((occurs_in (toLowerCase s) (toLowerCase (filename doc)) \<or>
       occurs_in (toLowerCase s) (toLowerCase (subject doc)))
      \<and> (f = utf16 ''all'' \<or> subject doc = f))"

text \<open>Lower-casing works unit by unit on a set of code units when, on the strings over the
  set, it maps every code unit by itself.\<close>

definition unit_by_unit :: "(ustring \<Rightarrow> ustring) \<Rightarrow> 16 word set \<Rightarrow> bool" where
  "unit_by_unit toLowerCase A = (\<exists>u. \<forall>x. set x \<subseteq> A \<longrightarrow> toLowerCase x = map u x)"

definition written_over :: "16 word set \<Rightarrow> Document \<Rightarrow> bool" where
  "written_over A doc = (set (filename doc) \<subseteq> A \<and> set (subject doc) \<subseteq> A)"

text \<open>A list is non-increasing by a number read off its elements when every element is
  \<^verbatim>\<open>>=\<close> every later one.\<close>

definition nonincreasing_by :: "('a \<Rightarrow> number) \<Rightarrow> 'a list \<Rightarrow> bool" where
  "nonincreasing_by key xs = sorted_wrt (\<lambda>a b. number_ge (key a) (key b)) xs"

text \<open>A list is ascending by a three-way comparison of keys when the comparison of every
  element with every later one is not positive.\<close>

definition ascending_by :: "('k \<Rightarrow> 'k \<Rightarrow> int) \<Rightarrow> ('a \<Rightarrow> 'k) \<Rightarrow> 'a list \<Rightarrow> bool" where
  "ascending_by compare key xs = sorted_wrt (\<lambda>a b. compare (key a) (key b) \<le> 0) xs"

text \<open>What is needed of the locale's comparison: of two strings one is not after the other,
  and not being after is transitive.\<close>

definition comparison_orders :: "('k \<Rightarrow> 'k \<Rightarrow> int) \<Rightarrow> bool" where
  "comparison_orders compare =
     ((\<forall>a b. compare a b \<le> 0 \<or> compare b a \<le> 0) \<and>
      (\<forall>a b c. compare a b \<le> 0 \<and> compare b c \<le> 0 \<longrightarrow> compare a c \<le> 0))"

text \<open>The search history is in order when it has at most ten entries and no entry twice.\<close>

definition history_ok :: "ResearchPage \<Rightarrow> bool" where
  "history_ok st = (length (searchHistory st) \<le> 10 \<and> distinct (searchHistory st))"

section \<open>Concrete inputs\<close>

text \<open>
  \<^verbatim>\<open>String.prototype.toLowerCase\<close> on the strings made of the code units U+0000 to U+007F
  and of the Greek letters U+0391 to U+03A9 and U+03B1 to U+03C9. A capital becomes the
  small letter 32 code units up. The capital sigma U+03A3 becomes the final sigma U+03C2
  when a letter comes before it and none after it, where the apostrophe, the full stop,
  the colon, the circumflex and the grave accent, which are ignored in that, may stand in
  between; otherwise it becomes U+03C3. The other code units stay.
\<close>

definition isCased :: "16 word \<Rightarrow> bool" where
  "isCased c =
     ((0x41 \<le> c \<and> c \<le> 0x5A) \<or> (0x61 \<le> c \<and> c \<le> 0x7A) \<or>
      (0x391 \<le> c \<and> c \<le> 0x3A9 \<and> c \<noteq> 0x3A2) \<or> (0x3B1 \<le> c \<and> c \<le> 0x3C9))"

definition isCaseIgnorable :: "16 word \<Rightarrow> bool" where
  "isCaseIgnorable c = (c \<in> {0x27, 0x2E, 0x3A, 0x5E, 0x60})"

definition toLowerCase_unit :: "16 word \<Rightarrow> 16 word" where
  "toLowerCase_unit c =
     (if (0x41 \<le> c \<and> c \<le> 0x5A) \<or> (0x391 \<le> c \<and> c \<le> 0x3A9 \<and> c \<noteq> 0x3A2)
      then c + 0x20 else c)"

fun followedByCased :: "ustring \<Rightarrow> bool" where
  "followedByCased [] = False"
| "followedByCased (c # cs) = (if isCaseIgnorable c then followedByCased cs else isCased c)"

fun toLowerCase_from :: "bool \<Rightarrow> ustring \<Rightarrow> ustring" where
  "toLowerCase_from afterCased [] = []"
| "toLowerCase_from afterCased (c # cs) =
     (if c = 0x3A3 then (if afterCased \<and> \<not> followedByCased cs then 0x3C2 else 0x3C3)
      else toLowerCase_unit c)
     # toLowerCase_from (if isCaseIgnorable c then afterCased else isCased c) cs"

definition toLowerCase_greek :: "ustring \<Rightarrow> ustring" where
  "toLowerCase_greek s = toLowerCase_from False s"

text \<open>A document whose filename is the Greek word for street in capitals, and the search
  text that is its last letter, the capital sigma.\<close>

definition street :: Document where
  "street =
     \<lparr>document_id = utf16 ''doc_004'', filename = [0x39F, 0x394, 0x39F, 0x3A3],
      subject = utf16 ''Maps'', upload_date = utf16 ''2024-02-01T08:00:00Z'',
      complexity_score = Fin 0.5, chunk_count = 3, file_size_mb = None, status = None\<rparr>"

definition capital_sigma :: ustring where
  "capital_sigma = [0x3A3]"

text \<open>The value of \<^verbatim>\<open>new Date(s).getTime()\<close> at the upload dates of the sample documents, in
  milliseconds since 1970; no other string is used below.\<close>

definition getTime_sample :: "ustring \<Rightarrow> number" where
  "getTime_sample s =
     (if s = utf16 ''2024-01-15T10:30:00Z'' then Fin 1705314600000
      else if s = utf16 ''2024-01-10T14:20:00Z'' then Fin 1704896400000
      else if s = utf16 ''2024-01-05T09:15:00Z'' then Fin 1704446100000
      else NaN)"

text \<open>A comparison of strings by their code units, in the place of the locale's.\<close>

fun compare_units :: "ustring \<Rightarrow> ustring \<Rightarrow> int" where
  "compare_units [] [] = 0"
| "compare_units [] (y # ys) = - 1"
| "compare_units (x # xs) [] = 1"
| "compare_units (x # xs) (y # ys) =
     (if x < y then - 1 else if y < x then 1 else compare_units xs ys)"

text \<open>The library page after its documents have arrived and \<open>LEARN\<close> has been typed into the
  search field, and its rendering.\<close>

definition library_example :: LibraryPage where
  "library_example = (fetchDocuments LibraryPage_init)\<lparr>lib_searchTerm := utf16 ''LEARN''\<rparr>"

definition library_rendered :: "nat \<times> LibraryPage" where
  "library_rendered =
     LibraryPage_render toLowerCase_greek getTime_sample compare_units library_example"

text \<open>Pages with their forms filled in, and runs of the handlers.\<close>

definition pdf_file :: File where
  "pdf_file = \<lparr>file_name = ''notes.pdf'', file_type = ''application/pdf''\<rparr>"

definition upload_blank_subject :: UploadPage where
  "upload_blank_subject = UploadPage_init\<lparr>upload_file := Some pdf_file, upload_subject := ''   ''\<rparr>"


definition ask_blank :: AskPage where
  "ask_blank = AskPage_init\<lparr>ask_input := ''   ''\<rparr>"

definition ask_ready :: AskPage where
  "ask_ready = AskPage_init\<lparr>ask_input := ''What is X?''\<rparr>"

definition failing_run :: ask_run where
  "failing_run =
     \<lparr>user_id_now = 7, user_timestamp = 7, ask_outcome = Rejected, assistant_id_now = 8,
      assistant_timestamp = 8\<rparr>"

definition source_example :: Source where
  "source_example =
     \<lparr>document = ''a.pdf'', chunk_id = ''c1'', relevance_score = Fin 0.9, preview = ''...''\<rparr>"

definition answering_run :: ask_run where
  "answering_run =
     \<lparr>user_id_now = 7, user_timestamp = 7,
      ask_outcome = Resolved \<lparr>answer = ''X is...'', sources = Some [source_example],
                              tutor_explanation = None, interaction_id = Some ''i1''\<rparr>,
      assistant_id_now = 8, assistant_timestamp = 8\<rparr>"


definition research_ready :: ResearchPage where
  "research_ready = setTopic ''Quantum Computing'' ResearchPage_init"

definition research_events :: "research_event list" where
  "research_events =
     [SetTopic ''Blockchain'', Search (Resolved ''papers''), Search (Resolved ''papers''),
      SetTopic ''Medicine'', Search Rejected, Search (Resolved ''more papers'')]"


section \<open>The sort\<close>

lemma set_sort_insert: "set (sort_insert c x xs) = insert x (set xs)"
  by (induction xs) auto

lemma mset_sort_insert: "mset (sort_insert c x xs) = add_mset x (mset xs)"
  by (induction xs) auto

lemma mset_array_sort: "mset (array_sort c xs) = mset xs"
  by (induction xs) (auto simp: mset_sort_insert)

lemma sorted_wrt_sort_insert:
  assumes before: "\<And>y. y \<in> set xs \<Longrightarrow> is_positive (SortCompare c x y) \<Longrightarrow> R y x"
    and after: "\<And>y. y \<in> set xs \<Longrightarrow> \<not> is_positive (SortCompare c x y) \<Longrightarrow> R x y"
    and trans: "\<And>y z. y \<in> set xs \<Longrightarrow> z \<in> set xs \<Longrightarrow> R x y \<Longrightarrow> R y z \<Longrightarrow> R x z"
    and sorted: "sorted_wrt R xs"
  shows "sorted_wrt R (sort_insert c x xs)"
  using assms
proof (induction xs)
  case Nil
  show ?case by simp
next
  case (Cons y ys)
  have tail: "sorted_wrt R ys" and head: "\<forall>z\<in>set ys. R y z"
    using Cons.prems(4) by simp_all
  show ?case
  proof (cases "is_positive (SortCompare c x y)")
    case True
    have "sorted_wrt R (sort_insert c x ys)"
    proof (rule Cons.IH)
      fix z assume "z \<in> set ys" "is_positive (SortCompare c x z)"
      then show "R z x" using Cons.prems(1)[of z] by simp
    next
      fix z assume "z \<in> set ys" "\<not> is_positive (SortCompare c x z)"
      then show "R x z" using Cons.prems(2)[of z] by simp
    next
      fix z w assume "z \<in> set ys" "w \<in> set ys" "R x z" "R z w"
      then show "R x w" using Cons.prems(3)[of z w] by simp
    next
      show "sorted_wrt R ys" by (rule tail)
    qed
    moreover have "R y x" using Cons.prems(1)[of y] True by simp
    ultimately show ?thesis using True head by (simp add: set_sort_insert)
  next
    case False
    have xy: "R x y" using Cons.prems(2)[of y] False by simp
    have "\<forall>z\<in>set ys. R x z"
    proof
      fix z assume z: "z \<in> set ys"
      then have "R y z" using head by simp
      then show "R x z" using Cons.prems(3)[of y z] xy z by simp
    qed
    then show ?thesis using False xy head tail by simp
  qed
qed

lemma sorted_wrt_array_sort:
  assumes before: "\<And>x y. x \<in> set xs \<Longrightarrow> y \<in> set xs \<Longrightarrow> is_positive (SortCompare c x y) \<Longrightarrow> R y x"
    and after: "\<And>x y. x \<in> set xs \<Longrightarrow> y \<in> set xs \<Longrightarrow> \<not> is_positive (SortCompare c x y) \<Longrightarrow> R x y"
    and trans: "\<And>x y z. x \<in> set xs \<Longrightarrow> y \<in> set xs \<Longrightarrow> z \<in> set xs \<Longrightarrow> R x y \<Longrightarrow> R y z \<Longrightarrow> R x z"
  shows "sorted_wrt R (array_sort c xs)"
  using assms
proof (induction xs)
  case Nil
  show ?case by simp
next
  case (Cons x xs)
  have set_eq: "set (array_sort c xs) = set xs"
    by (metis mset_array_sort set_mset_mset)
  have IH: "sorted_wrt R (array_sort c xs)"
  proof (rule Cons.IH)
    fix a b assume "a \<in> set xs" "b \<in> set xs" "is_positive (SortCompare c a b)"
    then show "R b a" using Cons.prems(1)[of a b] by simp
  next
    fix a b assume "a \<in> set xs" "b \<in> set xs" "\<not> is_positive (SortCompare c a b)"
    then show "R a b" using Cons.prems(2)[of a b] by simp
  next
    fix a b d assume "a \<in> set xs" "b \<in> set xs" "d \<in> set xs" "R a b" "R b d"
    then show "R a d" using Cons.prems(3)[of a b d] by simp
  qed
  have "sorted_wrt R (sort_insert c x (array_sort c xs))"
  proof (rule sorted_wrt_sort_insert)
    fix y assume "y \<in> set (array_sort c xs)" "is_positive (SortCompare c x y)"
    then show "R y x" using Cons.prems(1)[of x y] set_eq by simp
  next
    fix y assume "y \<in> set (array_sort c xs)" "\<not> is_positive (SortCompare c x y)"
    then show "R x y" using Cons.prems(2)[of x y] set_eq by simp
  next
    fix y z assume "y \<in> set (array_sort c xs)" "z \<in> set (array_sort c xs)" "R x y" "R y z"
    then show "R x z" using Cons.prems(3)[of x y z] set_eq by simp
  next
    show "sorted_wrt R (array_sort c xs)" by (rule IH)
  qed
  then show ?case by simp
qed

lemma positive_difference: "is_positive (minus_number u v) \<Longrightarrow> number_ge u v"
  by (cases u; cases v) auto

lemma nonpositive_difference:
  "u \<noteq> NaN \<Longrightarrow> v \<noteq> NaN \<Longrightarrow> \<not> is_positive (SortCompare (\<lambda>a b. minus_number (k b) (k a)) x y) \<Longrightarrow> k x = u \<Longrightarrow> k y = v \<Longrightarrow> number_ge u v"
  by (cases u; cases v) (auto simp: SortCompare_def)

lemma number_ge_trans: "number_ge u v \<Longrightarrow> number_ge v w \<Longrightarrow> number_ge u w"
  by (cases u; cases v; cases w) auto

lemma compare_units_total: "compare_units a b \<le> 0 \<or> compare_units b a \<le> 0"
  by (induction a b rule: compare_units.induct) auto

lemma compare_units_nonpos_iff:
  "compare_units (x # xs) (y # ys) \<le> 0 \<longleftrightarrow> x < y \<or> (x = y \<and> compare_units xs ys \<le> 0)"
  by auto

lemma compare_units_trans:
  "compare_units a b \<le> 0 \<Longrightarrow> compare_units b c \<le> 0 \<Longrightarrow> compare_units a c \<le> 0"
proof (induction a arbitrary: b c)
  case Nil
  then show ?case by (cases c) simp_all
next
  case (Cons x xs)
  from Cons.prems(1) obtain y ys where b: "b = y # ys" by (cases b) simp_all
  from Cons.prems(2) b obtain z zs where c: "c = z # zs" by (cases c) simp_all
  from Cons.prems(1) b have 1: "x < y \<or> (x = y \<and> compare_units xs ys \<le> 0)"
    by (simp only: compare_units_nonpos_iff)
  from Cons.prems(2) b c have 2: "y < z \<or> (y = z \<and> compare_units ys zs \<le> 0)"
    by (simp only: compare_units_nonpos_iff)
  from 1 2 Cons.IH[of ys zs]
  have "x < z \<or> (x = z \<and> compare_units xs zs \<le> 0)"
    by auto
  then show ?case unfolding c by (simp only: compare_units_nonpos_iff)
qed

lemma sorted_by_difference:
  assumes "\<forall>d\<in>set ds. k d \<noteq> NaN"
  shows "nonincreasing_by k (array_sort (\<lambda>a b. minus_number (k b) (k a)) ds)"
  unfolding nonincreasing_by_def
proof (rule sorted_wrt_array_sort)
  fix x y assume "is_positive (SortCompare (\<lambda>a b. minus_number (k b) (k a)) x y)"
  then have "is_positive (minus_number (k y) (k x))"
    by (simp add: SortCompare_def Let_def split: if_splits)
  then show "number_ge (k y) (k x)" by (rule positive_difference)
next
  fix x y assume "x \<in> set ds" "y \<in> set ds"
    and "\<not> is_positive (SortCompare (\<lambda>a b. minus_number (k b) (k a)) x y)"
  then show "number_ge (k x) (k y)"
    using assms nonpositive_difference[of "k x" "k y" k x y] by simp
next
  fix x y z assume "number_ge (k x) (k y)" "number_ge (k y) (k z)"
  then show "number_ge (k x) (k z)" by (rule number_ge_trans)
qed

lemma sorted_by_comparison:
  assumes "comparison_orders compare"
  shows "ascending_by compare key (array_sort (\<lambda>a b. Fin (of_int (compare (key a) (key b)))) ds)"
  unfolding ascending_by_def
proof (rule sorted_wrt_array_sort)
  fix x y assume "is_positive (SortCompare (\<lambda>a b. Fin (of_int (compare (key a) (key b)))) x y)"
  then have "0 < compare (key x) (key y)" by (simp add: SortCompare_def)
  then show "compare (key y) (key x) \<le> 0"
    using assms unfolding comparison_orders_def by (metis not_less)
next
  fix x y assume "\<not> is_positive (SortCompare (\<lambda>a b. Fin (of_int (compare (key a) (key b)))) x y)"
  then show "compare (key x) (key y) \<le> 0" by (simp add: SortCompare_def)
next
  fix x y z assume "compare (key x) (key y) \<le> 0" "compare (key y) (key z) \<le> 0"
  then show "compare (key x) (key z) \<le> 0"
    using assms unfolding comparison_orders_def by blast
qed

lemma compareDocuments_upload_date:
  "compareDocuments getTime lc (utf16 ''upload_date'') =
     (\<lambda>a b. minus_number (getTime (upload_date b)) (getTime (upload_date a)))"
  by (intro ext) (simp add: compareDocuments_def)

lemma compareDocuments_filename:
  "compareDocuments getTime lc (utf16 ''filename'') =
     (\<lambda>a b. Fin (of_int (lc (filename a) (filename b))))"
  by (intro ext) (simp add: compareDocuments_def utf16_def)

lemma compareDocuments_complexity:
  "compareDocuments getTime lc (utf16 ''complexity'') =
     (\<lambda>a b. minus_number (complexity_score b) (complexity_score a))"
  by (intro ext) (simp add: compareDocuments_def utf16_def)

lemma compare_units_orders: "comparison_orders compare_units"
  unfolding comparison_orders_def using compare_units_total compare_units_trans by blast

lemma sample_sorted:
  "sortedDocuments getTime_sample compare_units (utf16 ''upload_date'') [doc_003, doc_001, doc_002]
     = [doc_001, doc_002, doc_003]"
  "sortedDocuments getTime_sample compare_units (utf16 ''filename'') [doc_003, doc_001, doc_002]
     = [doc_003, doc_002, doc_001]"
  "sortedDocuments getTime_sample compare_units (utf16 ''complexity'') [doc_003, doc_001, doc_002]
     = [doc_002, doc_001, doc_003]"
  by code_simp+

section \<open>Lower-casing and searching\<close>

lemma includes_iff: "String_includes a s \<longleftrightarrow> (\<exists>p q. a = p @ s @ q)"
proof (induction a)
  case Nil
  show ?case by auto
next
  case (Cons c cs)
  show ?case
  proof
    assume "String_includes (c # cs) s"
    then consider "take (length s) (c # cs) = s" | "String_includes cs s" by auto
    then show "\<exists>p q. c # cs = p @ s @ q"
    proof cases
      case 1
      then have "c # cs = [] @ s @ drop (length s) (c # cs)"
        by (metis append_Nil append_take_drop_id)
      then show ?thesis by blast
    next
      case 2
      then obtain p q where "cs = p @ s @ q" using Cons.IH by blast
      then have "c # cs = (c # p) @ s @ q" by simp
      then show ?thesis by blast
    qed
  next
    assume "\<exists>p q. c # cs = p @ s @ q"
    then obtain p q where pq: "c # cs = p @ s @ q" by blast
    show "String_includes (c # cs) s"
    proof (cases p)
      case Nil
      with pq have "take (length s) (c # cs) = s" by simp
      then show ?thesis by simp
    next
      case (Cons p1 ps)
      with pq have "cs = ps @ s @ q" by simp
      then have "String_includes cs s" using Cons.IH by blast
      then show ?thesis by simp
    qed
  qed
qed

lemma includes_occurs: "String_includes a s \<longleftrightarrow> occurs_in s a"
  unfolding includes_iff occurs_in_def ..

lemma filteredDocuments_lowered:
  "filteredDocuments toLowerCase ds s f = filter (lowered_predicate toLowerCase s f) ds"
  unfolding filteredDocuments_def
  by (rule filter_cong)
    (simp_all add: matchesSearch_def matchesFilter_def lowered_predicate_def includes_occurs)

lemma unit_by_unit_contains:
  assumes "unit_by_unit toLowerCase A" and "set a \<subseteq> A" and "set s \<subseteq> A"
  shows "occurs_in (toLowerCase s) (toLowerCase a) \<longleftrightarrow> contains_ignoring_case toLowerCase a s"
proof -
  from assms(1) obtain u where u: "\<And>x. set x \<subseteq> A \<Longrightarrow> toLowerCase x = map u x"
    unfolding unit_by_unit_def by blast
  show ?thesis
  proof
    assume "occurs_in (toLowerCase s) (toLowerCase a)"
    then obtain p q where "map u a = p @ map u s @ q"
      unfolding occurs_in_def using u[OF assms(2)] u[OF assms(3)] by auto
    then obtain x y z where a: "a = x @ y @ z" and y: "map u y = map u s"
      by (metis map_eq_append_conv)
    from a assms(2) have "set y \<subseteq> A" by auto
    then have "toLowerCase y = toLowerCase s" using u[of y] u[OF assms(3)] y by simp
    with a show "contains_ignoring_case toLowerCase a s"
      unfolding contains_ignoring_case_def by blast
  next
    assume "contains_ignoring_case toLowerCase a s"
    then obtain x y z where a: "a = x @ y @ z" and y: "toLowerCase y = toLowerCase s"
      unfolding contains_ignoring_case_def by blast
    from a assms(2) have "set x \<subseteq> A" "set y \<subseteq> A" "set z \<subseteq> A" by auto
    then have "toLowerCase a = map u x @ toLowerCase s @ map u z"
      using u[OF assms(2)] u[of y] y a by simp
    then show "occurs_in (toLowerCase s) (toLowerCase a)"
      unfolding occurs_in_def by blast
  qed
qed

lemma toLowerCase_from_units:
  "0x3A3 \<notin> set s \<Longrightarrow> toLowerCase_from afterCased s = map toLowerCase_unit s"
  by (induction s arbitrary: afterCased) auto

lemma toLowerCase_greek_unit_by_unit: "unit_by_unit toLowerCase_greek (- {0x3A3})"
  unfolding unit_by_unit_def toLowerCase_greek_def
  by (rule exI[of _ toLowerCase_unit]) (auto intro: toLowerCase_from_units)

section \<open>Properties of the library page\<close>

subsection \<open>The filter\<close>

text \<open>
  Claim C1, as amended. The filter of the library page keeps, in the order of the list,
  exactly the documents for which the lower-case form of the search text is found in the
  lower-case form of the filename or of the subject, and whose subject is the filter value
  unless the filter value is the sentinel \<open>all\<close>. Where lower-casing works unit by unit on
  the code units of the search text, the filenames and the subjects, these are the
  documents whose filename or subject contains the search text case-insensitively.
\<close>

theorem filteredDocuments_predicate:
  "filteredDocuments toLowerCase ds s f = filter (lowered_predicate toLowerCase s f) ds
   \<and> (unit_by_unit toLowerCase A \<and> set s \<subseteq> A \<and> (\<forall>doc\<in>set ds. written_over A doc) \<longrightarrow>
        filteredDocuments toLowerCase ds s f = filter (filter_predicate toLowerCase s f) ds)"
proof (intro conjI impI)
  show "filteredDocuments toLowerCase ds s f = filter (lowered_predicate toLowerCase s f) ds"
    by (rule filteredDocuments_lowered)
next
  assume h: "unit_by_unit toLowerCase A \<and> set s \<subseteq> A \<and> (\<forall>doc\<in>set ds. written_over A doc)"
  then have units: "unit_by_unit toLowerCase A" and search: "set s \<subseteq> A"
    and docs: "\<And>doc. doc \<in> set ds \<Longrightarrow> written_over A doc"
    by simp_all
  have "filter (lowered_predicate toLowerCase s f) ds = filter (filter_predicate toLowerCase s f) ds"
  proof (rule filter_cong)
    fix doc assume "doc \<in> set ds"
    then have "set (filename doc) \<subseteq> A" "set (subject doc) \<subseteq> A"
      using docs[of doc] by (simp_all add: written_over_def)
    then show "lowered_predicate toLowerCase s f doc = filter_predicate toLowerCase s f doc"
      unfolding lowered_predicate_def filter_predicate_def
      by (simp only: unit_by_unit_contains[OF units _ search])
  qed simp
  then show "filteredDocuments toLowerCase ds s f = filter (filter_predicate toLowerCase s f) ds"
    by (simp add: filteredDocuments_lowered)
qed

text \<open>The search text \<open>LEARN\<close> in capitals finds the two sample documents on learning, whose
  names have it in small letters.\<close>

theorem filteredDocuments_predicate_witness:
  "filteredDocuments toLowerCase_greek sampleDocs (utf16 ''LEARN'') (utf16 ''all'') = [doc_001, doc_002]
   \<and> filter (lowered_predicate toLowerCase_greek (utf16 ''LEARN'') (utf16 ''all'')) sampleDocs
       = [doc_001, doc_002]
   \<and> filter (filter_predicate toLowerCase_greek (utf16 ''LEARN'') (utf16 ''all'')) sampleDocs
       = [doc_001, doc_002]"
proof -
  have search: "set (utf16 ''LEARN'') \<subseteq> - {0x3A3}"
    by (simp add: utf16_def)
  have docs: "\<forall>doc\<in>set sampleDocs. written_over (- {0x3A3}) doc"
    by (simp add: sampleDocs_def written_over_def doc_001_def doc_002_def doc_003_def utf16_def)
  have found: "filteredDocuments toLowerCase_greek sampleDocs (utf16 ''LEARN'') (utf16 ''all'')
      = [doc_001, doc_002]"
    by code_simp
  note filtered = filteredDocuments_predicate[of toLowerCase_greek sampleDocs "utf16 ''LEARN''"
      "utf16 ''all''" "- {0x3A3}"]
  have units: "unit_by_unit toLowerCase_greek (- {0x3A3}) \<and> set (utf16 ''LEARN'') \<subseteq> - {0x3A3}
      \<and> (\<forall>doc\<in>set sampleDocs. written_over (- {0x3A3}) doc)"
    using toLowerCase_greek_unit_by_unit search docs by (intro conjI)
  have 1: "filter (lowered_predicate toLowerCase_greek (utf16 ''LEARN'') (utf16 ''all'')) sampleDocs
      = [doc_001, doc_002]"
    unfolding filtered[THEN conjunct1, symmetric] by (rule found)
  have 2: "filter (filter_predicate toLowerCase_greek (utf16 ''LEARN'') (utf16 ''all'')) sampleDocs
      = [doc_001, doc_002]"
    unfolding filtered[THEN conjunct2, THEN mp, OF units, symmetric] by (rule found)
  from found 1 2 show ?thesis by (intro conjI)
qed

text \<open>
  Claim C1 as stated fails where lower-casing looks at the neighbours of a letter. The
  filename of the document \<open>street\<close> ends with a capital sigma, so it contains the search
  text \<open>capital_sigma\<close> as it stands and satisfies the predicate of the claim; lower-cased,
  the filename ends with the final sigma and the search text is the other small sigma,
  and the page leaves the document out.
\<close>

theorem filteredDocuments_counterexample:
  "occurs_in capital_sigma (filename street)
   \<and> filter_predicate toLowerCase_greek capital_sigma (utf16 ''all'') street
   \<and> filteredDocuments toLowerCase_greek [street] capital_sigma (utf16 ''all'') = []"
proof -
  have split: "filename street = [0x39F, 0x394, 0x39F] @ capital_sigma @ []"
    by (simp add: street_def capital_sigma_def)
  then have 1: "occurs_in capital_sigma (filename street)"
    unfolding occurs_in_def by blast
  from split have "contains_ignoring_case toLowerCase_greek (filename street) capital_sigma"
    unfolding contains_ignoring_case_def by blast
  then have 2: "filter_predicate toLowerCase_greek capital_sigma (utf16 ''all'') street"
    by (simp add: filter_predicate_def)
  have 3: "filteredDocuments toLowerCase_greek [street] capital_sigma (utf16 ''all'') = []"
    by code_simp
  from 1 2 3 show ?thesis by (intro conjI)
qed

subsection \<open>The sort\<close>

text \<open>
  Claim C2. For documents as the data model has them, whose upload date is a date and whose
  complexity score is a number, and for the comparison of a locale, which orders the
  strings: the list sorted by \<open>upload_date\<close> is non-increasing by the parsed time, the list
  sorted by \<open>filename\<close> is ascending by the locale's comparison of the filenames, and the
  list sorted by \<open>complexity\<close> is non-increasing by the score.
\<close>

theorem sortedDocuments_ordered:
  "((\<forall>d\<in>set ds. getTime (upload_date d) \<noteq> NaN) \<longrightarrow>
      nonincreasing_by (\<lambda>d. getTime (upload_date d))
        (sortedDocuments getTime lc (utf16 ''upload_date'') ds))
   \<and> (comparison_orders lc \<longrightarrow>
      ascending_by lc filename (sortedDocuments getTime lc (utf16 ''filename'') ds))
   \<and> ((\<forall>d\<in>set ds. complexity_score d \<noteq> NaN) \<longrightarrow>
      nonincreasing_by complexity_score (sortedDocuments getTime lc (utf16 ''complexity'') ds))"
proof (intro conjI impI)
  assume "\<forall>d\<in>set ds. getTime (upload_date d) \<noteq> NaN"
  then show "nonincreasing_by (\<lambda>d. getTime (upload_date d))
      (sortedDocuments getTime lc (utf16 ''upload_date'') ds)"
    unfolding sortedDocuments_def compareDocuments_upload_date by (rule sorted_by_difference)
next
  assume "comparison_orders lc"
  then show "ascending_by lc filename (sortedDocuments getTime lc (utf16 ''filename'') ds)"
    unfolding sortedDocuments_def compareDocuments_filename by (rule sorted_by_comparison)
next
  assume "\<forall>d\<in>set ds. complexity_score d \<noteq> NaN"
  then show "nonincreasing_by complexity_score
      (sortedDocuments getTime lc (utf16 ''complexity'') ds)"
    unfolding sortedDocuments_def compareDocuments_complexity by (rule sorted_by_difference)
qed

text \<open>The three orders on the sample documents of the page: newest first, by name, and
  hardest first.\<close>

theorem sortedDocuments_ordered_witness:
  "nonincreasing_by (\<lambda>d. getTime_sample (upload_date d)) [doc_001, doc_002, doc_003]
   \<and> sortedDocuments getTime_sample compare_units (utf16 ''upload_date'') [doc_003, doc_001, doc_002]
       = [doc_001, doc_002, doc_003]
   \<and> ascending_by compare_units filename [doc_003, doc_002, doc_001]
   \<and> sortedDocuments getTime_sample compare_units (utf16 ''filename'') [doc_003, doc_001, doc_002]
       = [doc_003, doc_002, doc_001]
   \<and> nonincreasing_by complexity_score [doc_002, doc_001, doc_003]
   \<and> sortedDocuments getTime_sample compare_units (utf16 ''complexity'') [doc_003, doc_001, doc_002]
       = [doc_002, doc_001, doc_003]"
proof -
  have dates: "\<forall>d\<in>set [doc_003, doc_001, doc_002]. getTime_sample (upload_date d) \<noteq> NaN"
    by (simp add: doc_001_def doc_002_def doc_003_def getTime_sample_def utf16_def)
  have scores: "\<forall>d\<in>set [doc_003, doc_001, doc_002]. complexity_score d \<noteq> NaN"
    by (simp add: doc_001_def doc_002_def doc_003_def)
  note ordered =
    sortedDocuments_ordered[of "[doc_003, doc_001, doc_002]" getTime_sample compare_units]
  have 1: "nonincreasing_by (\<lambda>d. getTime_sample (upload_date d)) [doc_001, doc_002, doc_003]"
    using ordered[THEN conjunct1] dates unfolding sample_sorted by blast
  have 2: "ascending_by compare_units filename [doc_003, doc_002, doc_001]"
    using ordered[THEN conjunct2, THEN conjunct1] compare_units_orders
    unfolding sample_sorted by blast
  have 3: "nonincreasing_by complexity_score [doc_002, doc_001, doc_003]"
    using ordered[THEN conjunct2, THEN conjunct2] scores unfolding sample_sorted by blast
  from 1 2 3 sample_sorted show ?thesis by (intro conjI)
qed

subsection \<open>Rendering\<close>

lemma LibraryPage_render_eq:
  "LibraryPage_render lower getTime lc st =
     (Suc (length (lib_store st)),
      st\<lparr>lib_store := lib_store st @
           [filteredDocuments lower (lib_store st ! lib_documents st) (lib_searchTerm st)
              (lib_filterBy st),
            sortedDocuments getTime lc (lib_sortBy st)
              (filteredDocuments lower (lib_store st ! lib_documents st) (lib_searchTerm st)
                 (lib_filterBy st))]\<rparr>)"
  by (simp add: LibraryPage_render_def Array_filter_def Array_spread_def Array_sort_def
      Array_new_def filteredDocuments_def sortedDocuments_def nth_append list_update_append)

text \<open>
  Claim C3. Rendering the library page puts the filtered and the sorted list into two new
  arrays and changes nothing else: every array that was in the store, the array of the
  documents among them, is as before, no request is sent and no other field of the state
  changes. The sorted list is a function of the documents, the search text, the filter
  value and the sort key alone; it is a permutation of exactly the documents that pass the
  filter of the page; rendering a second time gives the same list again and leaves the
  first one as it is.
\<close>

theorem LibraryPage_render_pure:
  assumes "lib_documents st < length (lib_store st)"
    and "LibraryPage_render lower getTime lc st = (a, st1)"
    and "LibraryPage_render lower getTime lc st1 = (a', st2)"
  shows "lib_store st1 ! a =
           sortedDocuments getTime lc (lib_sortBy st)
             (filteredDocuments lower (lib_store st ! lib_documents st) (lib_searchTerm st)
                (lib_filterBy st))
         \<and> mset (lib_store st1 ! a) =
             filter_mset
               (\<lambda>doc. matchesSearch lower (lib_searchTerm st) doc \<and>
                       matchesFilter (lib_filterBy st) doc)
               (mset (lib_store st ! lib_documents st))
         \<and> take (length (lib_store st)) (lib_store st1) = lib_store st
         \<and> lib_store st1 ! lib_documents st = lib_store st ! lib_documents st
         \<and> st1 = st\<lparr>lib_store := lib_store st1\<rparr>
         \<and> requests st1 = requests st
         \<and> lib_store st2 ! a' = lib_store st1 ! a
         \<and> lib_store st2 ! a = lib_store st1 ! a"
proof -
  let ?D = "lib_store st ! lib_documents st"
  let ?F = "filteredDocuments lower ?D (lib_searchTerm st) (lib_filterBy st)"
  let ?S = "sortedDocuments getTime lc (lib_sortBy st) ?F"
  have a: "a = Suc (length (lib_store st))"
    and st1: "st1 = st\<lparr>lib_store := lib_store st @ [?F, ?S]\<rparr>"
    using assms(2) unfolding LibraryPage_render_eq by simp_all
  have store1: "lib_store st1 = lib_store st @ [?F, ?S]" unfolding st1 by simp
  have D1: "lib_store st1 ! lib_documents st1 = ?D"
    using assms(1) unfolding st1 by (simp add: nth_append)
  have a': "a' = Suc (length (lib_store st1))"
    and st2: "st2 = st1\<lparr>lib_store := lib_store st1 @
        [filteredDocuments lower ?D (lib_searchTerm st1) (lib_filterBy st1),
         sortedDocuments getTime lc (lib_sortBy st1)
           (filteredDocuments lower ?D (lib_searchTerm st1) (lib_filterBy st1))]\<rparr>"
    using assms(3) unfolding LibraryPage_render_eq D1 by simp_all
  have out: "lib_store st1 ! a = ?S" unfolding a store1 by (simp add: nth_append)
  have "mset ?S = mset ?F" unfolding sortedDocuments_def by (rule mset_array_sort)
  then have perm: "mset (lib_store st1 ! a) =
      filter_mset
        (\<lambda>doc. matchesSearch lower (lib_searchTerm st) doc \<and> matchesFilter (lib_filterBy st) doc)
        (mset ?D)"
    unfolding out filteredDocuments_def by simp
  have frame: "take (length (lib_store st)) (lib_store st1) = lib_store st"
    unfolding store1 by simp
  have D: "lib_store st1 ! lib_documents st = ?D"
    using assms(1) unfolding store1 by (simp add: nth_append)
  have same: "st1 = st\<lparr>lib_store := lib_store st1\<rparr>" unfolding st1 by simp
  have net: "requests st1 = requests st" unfolding st1 by simp
  have again: "lib_store st2 ! a' = lib_store st1 ! a"
    unfolding out unfolding a' st2 by (simp add: nth_append st1)
  have kept: "lib_store st2 ! a = lib_store st1 ! a"
    unfolding st2 a store1 by (simp add: nth_append)
  from out perm frame D same net again kept show ?thesis by (intro conjI)
qed

text \<open>The rendering of the sample documents with \<open>LEARN\<close> in the search field: the two
  documents on learning, the newer one first.\<close>

theorem LibraryPage_render_pure_witness:
  "lib_store (snd library_rendered) ! fst library_rendered = [doc_001, doc_002]
   \<and> mset (lib_store (snd library_rendered) ! fst library_rendered) =
       filter_mset
         (\<lambda>doc. matchesSearch toLowerCase_greek (utf16 ''LEARN'') doc \<and>
                 matchesFilter (utf16 ''all'') doc)
         (mset sampleDocs)
   \<and> take 2 (lib_store (snd library_rendered)) = [[], sampleDocs]
   \<and> requests (snd library_rendered) = []
   \<and> lib_store
        (snd (LibraryPage_render toLowerCase_greek getTime_sample compare_units (snd library_rendered)))
         ! fst (LibraryPage_render toLowerCase_greek getTime_sample compare_units (snd library_rendered))
       = [doc_001, doc_002]"
proof -
  have valid: "lib_documents library_example < length (lib_store library_example)"
    by code_simp
  have first: "LibraryPage_render toLowerCase_greek getTime_sample compare_units library_example =
      (fst library_rendered, snd library_rendered)"
    by (simp add: library_rendered_def)
  have second:
    "LibraryPage_render toLowerCase_greek getTime_sample compare_units (snd library_rendered) =
      (fst (LibraryPage_render toLowerCase_greek getTime_sample compare_units (snd library_rendered)),
       snd (LibraryPage_render toLowerCase_greek getTime_sample compare_units (snd library_rendered)))"
    by simp
  have store: "lib_store library_example = [[], sampleDocs]"
    and documents: "lib_documents library_example = 1"
    and search: "lib_searchTerm library_example = utf16 ''LEARN''"
    and sortkey: "lib_sortBy library_example = utf16 ''upload_date''"
    and filter: "lib_filterBy library_example = utf16 ''all''"
    and net: "requests library_example = []"
    by (simp_all add: library_example_def fetchDocuments_def LibraryPage_init_def Array_new_def)
  have sorted: "sortedDocuments getTime_sample compare_units (utf16 ''upload_date'')
      (filteredDocuments toLowerCase_greek sampleDocs (utf16 ''LEARN'') (utf16 ''all''))
      = [doc_001, doc_002]"
    by code_simp
  note rendering = LibraryPage_render_pure[OF valid first second]
  note sorted_list = rendering[THEN conjunct1]
  note permutation = rendering[THEN conjunct2, THEN conjunct1]
  note old_arrays = rendering[THEN conjunct2, THEN conjunct2, THEN conjunct1]
  note no_request = rendering[THEN conjunct2, THEN conjunct2, THEN conjunct2, THEN conjunct2,
      THEN conjunct2, THEN conjunct1]
  note again = rendering[THEN conjunct2, THEN conjunct2, THEN conjunct2, THEN conjunct2,
      THEN conjunct2, THEN conjunct2, THEN conjunct1]
  have 1: "lib_store (snd library_rendered) ! fst library_rendered = [doc_001, doc_002]"
    using sorted_list unfolding store documents search sortkey filter by (simp add: sorted)
  have 2: "mset (lib_store (snd library_rendered) ! fst library_rendered) =
       filter_mset
         (\<lambda>doc. matchesSearch toLowerCase_greek (utf16 ''LEARN'') doc \<and>
                 matchesFilter (utf16 ''all'') doc)
         (mset sampleDocs)"
    using permutation unfolding store documents search filter by simp
  have 3: "take 2 (lib_store (snd library_rendered)) = [[], sampleDocs]"
    using old_arrays by (simp add: store numeral_2_eq_2)
  have 4: "requests (snd library_rendered) = []"
    using no_request by (simp add: net)
  have 5: "lib_store
        (snd (LibraryPage_render toLowerCase_greek getTime_sample compare_units (snd library_rendered)))
         ! fst (LibraryPage_render toLowerCase_greek getTime_sample compare_units (snd library_rendered))
       = [doc_001, doc_002]"
    using again 1 by simp
  from 1 2 3 4 5 show ?thesis by (intro conjI)
qed

section \<open>Properties of the upload page\<close>

text \<open>
  Claim C4. When no file is selected or the subject is empty after trimming, the upload
  handler shows the error notice that asks for a file and a subject, sends no request and
  changes nothing else of the page.
\<close>

theorem handleUpload_validation:
  "upload_file st = None \<or> trim (upload_subject st) = [] \<Longrightarrow>
     handleUpload outcome st =
       st\<lparr>toasts := toasts st @ [Toast_error ''Please select a file and enter a subject.'']\<rparr>
     \<and> requests (handleUpload outcome st) = requests st"
  by (simp add: handleUpload_def)

text \<open>The handler on a form with a file and a subject of three spaces, and on the empty
  form.\<close>

theorem handleUpload_validation_witness:
  "trim (upload_subject upload_blank_subject) = []
   \<and> toasts (handleUpload (Resolved JNull) upload_blank_subject) =
       [Toast_error ''Please select a file and enter a subject.'']
   \<and> requests (handleUpload (Resolved JNull) upload_blank_subject) = []
   \<and> toasts (handleUpload (Resolved JNull) UploadPage_init) =
       [Toast_error ''Please select a file and enter a subject.'']
   \<and> requests (handleUpload (Resolved JNull) UploadPage_init) = []"
proof -
  have blank: "trim (upload_subject upload_blank_subject) = []" by code_simp
  have missing: "upload_file UploadPage_init = None" by (simp add: UploadPage_init_def)
  have "toasts upload_blank_subject = []" "requests upload_blank_subject = []"
       "toasts UploadPage_init = []" "requests UploadPage_init = []"
    by (simp_all add: upload_blank_subject_def UploadPage_init_def)
  then show ?thesis
    using handleUpload_validation[of upload_blank_subject "Resolved JNull"]
      handleUpload_validation[of UploadPage_init "Resolved JNull"] blank missing
    by simp
qed

section \<open>Properties of the ask page\<close>

subsection \<open>A blank question\<close>

text \<open>
  Claim C5, as amended. A submission whose question is empty or white space only is
  ignored: nothing is sent to the network, no notice is shown, and the page is in the
  state it was in.
\<close>

theorem handleSubmit_blank:
  "trim (ask_input st) = [] \<Longrightarrow> handleSubmit run st = st"
  by (simp add: handleSubmit_def)

theorem handleSubmit_blank_witness:
  "trim (ask_input ask_blank) = [] \<and> handleSubmit failing_run ask_blank = ask_blank"
proof -
  have blank: "trim (ask_input ask_blank) = []" by code_simp
  then show ?thesis using handleSubmit_blank[of ask_blank failing_run] by simp
qed

text \<open>
  Claim C5 as stated asks for a notice to the user. The handler returns before it shows
  any: after the submission of a question of three spaces the list of notices is empty.
\<close>

theorem handleSubmit_blank_counterexample:
  "trim (ask_input ask_blank) = [] \<and> toasts (handleSubmit failing_run ask_blank) = []"
proof -
  have blank: "trim (ask_input ask_blank) = []" by code_simp
  then show ?thesis by (simp add: handleSubmit_def ask_blank_def AskPage_init_def)
qed

subsection \<open>The request\<close>

text \<open>
  Claim C6. The gateway operation \<open>askQuestion\<close> is one POST to \<open>/ask\<close> whose JSON body has the
  fields \<open>question\<close>, \<open>document_id\<close> and \<open>user_id\<close> with the values given, and \<open>document_id\<close> is
  the sentinel \<open>all\<close> when no document id is given.
\<close>

theorem askQuestion_request:
  "req_method (askQuestion q d u) = POST
   \<and> req_url (askQuestion q d u) = ''/ask''
   \<and> req_body (askQuestion q (Some d') u) =
       JsonBody [(''question'', JString q), (''document_id'', JString d'), (''user_id'', JString u)]
   \<and> req_body (askQuestion q None u) =
       JsonBody [(''question'', JString q), (''document_id'', JString ''all''), (''user_id'', JString u)]
   \<and> req_params (askQuestion q d u) = []
   \<and> req_content_type (askQuestion q d u) = ''application/json''
   \<and> (trim (ask_input st) \<noteq> [] \<and> \<not> ask_loading st \<longrightarrow>
        requests (handleSubmit run st) =
          requests st @ [askQuestion (ask_input st) (Some (ask_selectedDocument st)) ''cli_user''])"
  by (simp add: askQuestion_def api_post_def handleSubmit_def Let_def split: response.split)

text \<open>The request of the specification's example: the question \<open>What is X?\<close> over all
  documents.\<close>

theorem askQuestion_request_witness:
  "requests (handleSubmit answering_run ask_ready) =
     [\<lparr>req_method = POST, req_url = ''/ask'',
       req_body = JsonBody [(''question'', JString ''What is X?''),
                            (''document_id'', JString ''all''),
                            (''user_id'', JString ''cli_user'')],
       req_params = [], req_content_type = ''application/json''\<rparr>]"
proof -
  have question: "trim (ask_input ask_ready) \<noteq> []" by code_simp
  have idle: "\<not> ask_loading ask_ready" by (simp add: ask_ready_def AskPage_init_def)
  show ?thesis
    using askQuestion_request[of "''What is X?''" "Some ''all''" "''cli_user''" "''all''"
        ask_ready answering_run] question idle
    by (simp add: ask_ready_def AskPage_init_def askQuestion_def api_post_def)
qed

subsection \<open>The sources of an answer\<close>

text \<open>
  Claim C8. After a submission that the backend answers, the last message of the
  transcript is the assistant's, and its sources are the sources of the response as they
  came: the same list, hence the same length, order and fields.
\<close>

theorem handleSubmit_sources:
  assumes "trim (ask_input st) \<noteq> []" and "\<not> ask_loading st"
    and "ask_outcome run = Resolved data"
  shows "length (ask_messages (handleSubmit run st)) = length (ask_messages st) + 2
         \<and> msg_type (last (ask_messages (handleSubmit run st))) = Assistant
         \<and> msg_content (last (ask_messages (handleSubmit run st))) = answer data
         \<and> msg_interaction_id (last (ask_messages (handleSubmit run st))) = interaction_id data
         \<and> msg_sources (last (ask_messages (handleSubmit run st))) = sources data"
  using assms by (simp add: handleSubmit_def Let_def)

text \<open>The example of the specification: one source with relevance score 0.9.\<close>

theorem handleSubmit_sources_witness:
  "msg_sources (last (ask_messages (handleSubmit answering_run ask_ready))) =
     Some [\<lparr>document = ''a.pdf'', chunk_id = ''c1'', relevance_score = Fin 0.9, preview = ''...''\<rparr>]
   \<and> length (ask_messages (handleSubmit answering_run ask_ready)) = 2"
proof -
  have question: "trim (ask_input ask_ready) \<noteq> []" by code_simp
  have idle: "\<not> ask_loading ask_ready" by (simp add: ask_ready_def AskPage_init_def)
  have outcome: "ask_outcome answering_run =
      Resolved \<lparr>answer = ''X is...'', sources = Some [source_example],
                tutor_explanation = None, interaction_id = Some ''i1''\<rparr>"
    by (simp add: answering_run_def)
  have empty: "ask_messages ask_ready = []" by (simp add: ask_ready_def AskPage_init_def)
  show ?thesis
    using handleSubmit_sources[OF question idle outcome]
    by (simp add: source_example_def empty)
qed

subsection \<open>Feedback\<close>

text \<open>
  Claim C9. Submitting feedback, whether the request succeeds or fails, leaves the
  transcript and the rest of the form as they are; a failure is reported by a notice.
\<close>

theorem handleFeedback_frame:
  "ask_messages (handleFeedback outcome interactionId rating st) = ask_messages st
   \<and> ask_input (handleFeedback outcome interactionId rating st) = ask_input st
   \<and> ask_loading (handleFeedback outcome interactionId rating st) = ask_loading st
   \<and> ask_selectedDocument (handleFeedback outcome interactionId rating st) = ask_selectedDocument st
   \<and> toasts (handleFeedback Rejected interactionId rating st) =
       toasts st @ [Toast_error ''Failed to submit feedback.'']
   \<and> toasts (handleFeedback (Resolved data) interactionId rating st) =
       toasts st @ [Toast_success ''Thank you for your feedback!'']"
  by (simp add: handleFeedback_def Let_def split: response.split)

section \<open>Failed calls\<close>




section \<open>Properties of the research page\<close>

lemma searchHistory_handleSearch:
  "searchHistory (handleSearch outcome st) =
     (case outcome of
        Rejected \<Rightarrow> searchHistory st
      | Resolved suggestions \<Rightarrow>
          if trim (research_topic st) = [] \<or> research_topic st \<in> set (searchHistory st)
          then searchHistory st
          else research_topic st # take 9 (searchHistory st))"
  by (simp add: handleSearch_def Let_def split: response.split)

lemma history_ok_step: "history_ok st \<Longrightarrow> history_ok (research_step st e)"
proof (cases e)
  case (SetTopic t)
  assume "history_ok st"
  then show ?thesis unfolding SetTopic by (simp add: history_ok_def setTopic_def)
next
  case (Search outcome)
  assume ok: "history_ok st"
  have "research_topic st \<notin> set (searchHistory st) \<Longrightarrow>
        research_topic st \<notin> set (take 9 (searchHistory st))"
    by (meson in_set_takeD)
  then show ?thesis
    using ok unfolding Search
    by (simp add: history_ok_def searchHistory_handleSearch split: response.split)
qed

lemma history_ok_foldl: "history_ok st \<Longrightarrow> history_ok (foldl research_step st events)"
  by (induction events arbitrary: st) (simp_all add: history_ok_step)

lemma history_ok_init: "history_ok ResearchPage_init"
  by (simp add: history_ok_def ResearchPage_init_def)

text \<open>
  Claim C10. After any sequence of topic changes and searches on the research page the
  search history has at most ten entries and no entry twice; a successful search for a
  topic that is not in the history puts the topic in front of the history, and a search for
  a topic that is in the history leaves the history as it is.
\<close>

theorem searchHistory_bounded_distinct:
  "length (searchHistory (research_run events)) \<le> 10
   \<and> distinct (searchHistory (research_run events))
   \<and> (trim (research_topic st) \<noteq> [] \<and> research_topic st \<notin> set (searchHistory st) \<longrightarrow>
        searchHistory (handleSearch (Resolved suggestions) st) =
          research_topic st # take 9 (searchHistory st))
   \<and> (research_topic st \<in> set (searchHistory st) \<longrightarrow>
        searchHistory (handleSearch outcome st) = searchHistory st)"
proof -
  have "history_ok (research_run events)"
    unfolding research_run_def by (rule history_ok_foldl) (rule history_ok_init)
  then show ?thesis
    by (simp add: history_ok_def searchHistory_handleSearch split: response.split)
qed

lemma research_events_history:
  "searchHistory (research_run research_events) = [''Medicine'', ''Blockchain'']"
  by code_simp

theorem searchHistory_bounded_distinct_witness:
  "length (searchHistory (research_run research_events)) \<le> 10
   \<and> distinct (searchHistory (research_run research_events))
   \<and> searchHistory (handleSearch (Resolved ''papers'') research_ready) = [''Quantum Computing'']
   \<and> searchHistory (handleSearch (Resolved ''papers'') (handleSearch (Resolved ''papers'') research_ready))
       = [''Quantum Computing'']"
proof -
  have topic: "trim (research_topic research_ready) \<noteq> []" by code_simp
  have fresh: "research_topic research_ready \<notin> set (searchHistory research_ready)"
    by (simp add: research_ready_def setTopic_def ResearchPage_init_def)
  have first: "searchHistory (handleSearch (Resolved ''papers'') research_ready) = [''Quantum Computing'']"
    using searchHistory_bounded_distinct[of research_events research_ready "''papers''" Rejected]
      topic fresh
    by (simp add: research_ready_def setTopic_def ResearchPage_init_def)
  have present: "research_topic (handleSearch (Resolved ''papers'') research_ready)
      \<in> set (searchHistory (handleSearch (Resolved ''papers'') research_ready))"
    unfolding first using topic
    by (simp add: handleSearch_def Let_def research_ready_def setTopic_def ResearchPage_init_def)
  have second: "searchHistory (handleSearch (Resolved ''papers'') (handleSearch (Resolved ''papers'') research_ready))
       = [''Quantum Computing'']"
    using searchHistory_bounded_distinct[of research_events
        "handleSearch (Resolved ''papers'') research_ready" "''papers''" "Resolved ''papers''"]
      present first
    by simp
  show ?thesis
    using searchHistory_bounded_distinct[of research_events research_ready "''papers''" Rejected]
      first second
    by simp
qed


end

